theory Spec2Isabelle
  imports Main "HOL-Library.Word" "HOL-Library.Sublist"
begin

unbundle bit_operations_syntax

section \<open>Legacy schema masks and their buffer ids (namespace \<open>ifm3d_legacy\<close>)\<close>

text \<open>
  \<^verbatim>\<open>std::uint16_t\<close> is a 16-bit word. Both operands of \<^verbatim>\<open>mask & schema_mask\<close> are
  promoted to \<^verbatim>\<open>int\<close> in C++; they are non-negative and below \<open>2 ^ 16\<close>, so the bitwise
  conjunction and the comparison agree with the ones on 16-bit words.
\<close>

type_synonym uint16 = "16 word"

text \<open>
  \<^verbatim>\<open>ifm3d::buffer_id\<close> is an enumeration of the ifm3d library. The header names four of
  its enumerators; every other enumerator is \<open>OTHER_BUFFER_ID n\<close>, with \<open>n\<close> its
  numeric value. The four named enumerators are distinct values of the enumeration.
\<close>

datatype buffer_id =
    RADIAL_DISTANCE_IMAGE
  | NORM_AMPLITUDE_IMAGE
  | AMPLITUDE_IMAGE
  | XYZ
  | OTHER_BUFFER_ID nat

text \<open>\<^verbatim>\<open>ifm3d::FrameGrabber::BufferList\<close> is a vector of buffer ids.\<close>

type_synonym BufferList = "buffer_id list"

definition IMG_RDIS :: uint16 where
  "IMG_RDIS = push_bit 0 1"

definition IMG_AMP :: uint16 where
  "IMG_AMP = push_bit 1 1"

definition IMG_RAMP :: uint16 where
  "IMG_RAMP = push_bit 2 1"

definition IMG_CART :: uint16 where
  "IMG_CART = push_bit 3 1"

subsection \<open>\<^verbatim>\<open>std::map\<close> with \<^verbatim>\<open>std::uint16_t\<close> keys\<close>

text \<open>
  A \<^verbatim>\<open>std::map\<close> is kept as the list of its entries in ascending key order, which is the
  order a range-based \<^verbatim>\<open>for\<close> visits them in. Inserting an entry whose key is already
  present leaves the map as it is. The constructor from an initializer list inserts the
  listed entries one after the other.
\<close>

type_synonym 'v std_map = "(uint16 \<times> 'v) list"

fun map_insert :: "uint16 \<times> 'v \<Rightarrow> 'v std_map \<Rightarrow> 'v std_map" where
  "map_insert (k, v) [] = [(k, v)]"
| "map_insert (k, v) ((k', v') # rest) =
     (if k < k' then (k, v) # (k', v') # rest
      else if k = k' then (k', v') # rest
      else (k', v') # map_insert (k, v) rest)"

definition map_of_initializer_list :: "(uint16 \<times> 'v) list \<Rightarrow> 'v std_map" where
  "map_of_initializer_list init = foldl (\<lambda>m e. map_insert e m) [] init"

text \<open>The initializer list of the table, as the header writes it.\<close>

definition schema_mask_buffer_id_init :: "(uint16 \<times> buffer_id) list" where
  "schema_mask_buffer_id_init =
     [(IMG_RDIS, RADIAL_DISTANCE_IMAGE),
      (IMG_AMP, NORM_AMPLITUDE_IMAGE),
      (IMG_RAMP, AMPLITUDE_IMAGE),
      (IMG_CART, XYZ)]"

definition schema_mask_buffer_id_map :: "buffer_id std_map" where
  "schema_mask_buffer_id_map = map_of_initializer_list schema_mask_buffer_id_init"

subsection \<open>\<^verbatim>\<open>buffer_list_from_schema_mask\<close>\<close>

text \<open>
  The range-based \<^verbatim>\<open>for\<close> over the map: the entries still to visit, and the local
  \<^verbatim>\<open>buffer_list\<close> so far; \<^verbatim>\<open>emplace_back\<close> appends at the end. The parameter
  \<^verbatim>\<open>mask\<close> is written \<open>msk\<close>.
\<close>

fun buffer_list_loop :: "uint16 \<Rightarrow> buffer_id std_map \<Rightarrow> BufferList \<Rightarrow> BufferList" where
  "buffer_list_loop msk [] buffer_list = buffer_list"
| "buffer_list_loop msk ((schema_mask, buffer_id) # rest) buffer_list =
     buffer_list_loop msk rest
       (if msk AND schema_mask = schema_mask then buffer_list @ [buffer_id]
        else buffer_list)"

definition buffer_list_from_schema_mask :: "uint16 \<Rightarrow> BufferList" where
  "buffer_list_from_schema_mask msk = buffer_list_loop msk schema_mask_buffer_id_map []"

subsection \<open>The call on the namespace's state\<close>

text \<open>
  The table is a namespace-scope variable that is not declared \<^verbatim>\<open>const\<close>, so a call of
  \<^verbatim>\<open>buffer_list_from_schema_mask\<close> reads program state. The call is given the state and
  returns it with the result: the loop binds each entry by reference and only reads it,
  and the vector it fills is a local one. The variable starts as the constructed table.
\<close>

record ifm3d_legacy =
  map_var :: "buffer_id std_map"

definition ifm3d_legacy_init :: ifm3d_legacy where
  "ifm3d_legacy_init = \<lparr>map_var = schema_mask_buffer_id_map\<rparr>"

definition buffer_list_from_schema_mask_call ::
    "uint16 \<Rightarrow> ifm3d_legacy \<Rightarrow> BufferList \<times> ifm3d_legacy" where
  "buffer_list_from_schema_mask_call msk g = (buffer_list_loop msk (map_var g) [], g)"

text \<open>A sequence of calls, one per mask, each in the state the one before left.\<close>

fun calls :: "uint16 list \<Rightarrow> ifm3d_legacy \<Rightarrow> BufferList list \<times> ifm3d_legacy" where
  "calls [] g = ([], g)"
| "calls (msk # rest) g =
     (case buffer_list_from_schema_mask_call msk g of
        (r, g') \<Rightarrow> (case calls rest g' of (rs, g'') \<Rightarrow> (r # rs, g'')))"

section \<open>The lifecycle controller\<close>

text \<open>
  The header declares the transition callbacks \<^verbatim>\<open>on_configure\<close>, \<^verbatim>\<open>on_activate\<close>,
  \<^verbatim>\<open>on_deactivate\<close>, \<^verbatim>\<open>on_cleanup\<close>, \<^verbatim>\<open>on_shutdown\<close>, \<^verbatim>\<open>on_error\<close> and the \<^verbatim>\<open>Dump\<close>
  service of \<^verbatim>\<open>CameraNode\<close> and does not contain their bodies. This section models them
  from the specification: its data model, its transition table and its description of
  the request endpoints.
\<close>

text \<open>
  Modelled from the spec: the states of the controller (ControllerState), which the
  missing callback bodies move between.
\<close>

datatype ControllerState = Unconfigured | Inactive | Active | ErrorProcessing | Finalized

text \<open>
  Modelled from the spec: the errors of Device Session \<open>open\<close>, which the missing body of
  \<^verbatim>\<open>on_configure\<close> calls.
\<close>

datatype DeviceError = ConnectFailed | ConfigRejected

text \<open>
  Modelled from the spec: the session handle that the missing body of \<^verbatim>\<open>on_configure\<close>
  creates. It owns the connection, the frame source bound to the requested buffer list,
  and the frame buffer. Only the buffer list is kept.
\<close>

record SessionHandle =
  frame_source :: BufferList

text \<open>
  Modelled from the spec: the controller that the missing callback bodies act on: its
  state, the schema mask of its parameters, the session (at most one exists), and
  whether the acquisition loop runs. \<open>gil_held\<close> says whether another thread holds the
  session lock (the header's \<^verbatim>\<open>gil_\<close>) at the moment of a call.
\<close>

record Controller =
  state :: ControllerState
  schema_mask :: uint16
  session :: "SessionHandle option"
  loop_running :: bool
  gil_held :: bool

text \<open>
  Modelled from the spec: the session-open count of the resource-leak check, which
  counts the sessions that the missing callback bodies have opened and not closed.
\<close>

definition open_sessions :: "Controller \<Rightarrow> nat" where
  "open_sessions c = (case session c of None \<Rightarrow> 0 | Some h \<Rightarrow> 1)"

text \<open>
  Modelled from the spec: Device Session \<open>open\<close>, called by the missing body of
  \<^verbatim>\<open>on_configure\<close>, returns a ready handle or a device error. The first argument is what
  the device does: \<open>None\<close> when it accepts, the error otherwise.
\<close>

fun open_session :: "DeviceError option \<Rightarrow> BufferList \<Rightarrow> DeviceError + SessionHandle" where
  "open_session None buffer_list = Inr \<lparr>frame_source = buffer_list\<rparr>"
| "open_session (Some e) buffer_list = Inl e"

text \<open>
  Modelled from the spec: Device Session \<open>close\<close>, called by the missing bodies of
  \<^verbatim>\<open>on_cleanup\<close>, \<^verbatim>\<open>on_shutdown\<close> and \<^verbatim>\<open>on_error\<close>, releases the session; a second call
  is a no-op.
\<close>

definition close_session :: "Controller \<Rightarrow> Controller" where
  "close_session c = c\<lparr>session := None\<rparr>"

text \<open>
  Modelled from the spec: the missing body of \<^verbatim>\<open>on_error\<close>, the row "any, internal
  failure" of the transition table: stop the loop if it runs, close the session, go to
  ErrorProcessing. The failure column of the other rows leads here too.
\<close>

definition on_error :: "Controller \<Rightarrow> Controller" where
  "on_error c = (close_session (c\<lparr>loop_running := False\<rparr>))\<lparr>state := ErrorProcessing\<rparr>"

text \<open>
  Modelled from the spec: the triggers of the transition table, one per missing callback
  body.
\<close>

datatype Trigger = configure | activate | deactivate | cleanup | shutdown | internal_failure

text \<open>
  Modelled from the spec: one transition, that is the missing body of the trigger's
  callback with the change of state that follows it, row by row of the transition
  table. \<open>fault\<close> is the failure of the transition's action, if any; a failed action
  takes the failure column of the table. A trigger for which the table has no row in the
  current state leaves the controller as it is.
\<close>

fun transition :: "Trigger \<Rightarrow> DeviceError option \<Rightarrow> Controller \<Rightarrow> Controller" where
  "transition configure fault c =
     (if state c = Unconfigured \<or> state c = ErrorProcessing then
        (case open_session fault (buffer_list_from_schema_mask (schema_mask c)) of
           Inr h \<Rightarrow> c\<lparr>session := Some h, state := Inactive\<rparr>
         | Inl e \<Rightarrow> on_error c)
      else c)"
| "transition activate fault c =
     (if state c = Inactive then
        (case fault of
           None \<Rightarrow> c\<lparr>loop_running := True, state := Active\<rparr>
         | Some e \<Rightarrow> on_error c)
      else c)"
| "transition deactivate fault c =
     (if state c = Active then
        (case fault of
           None \<Rightarrow> c\<lparr>loop_running := False, state := Inactive\<rparr>
         | Some e \<Rightarrow> on_error c)
      else c)"
| "transition cleanup fault c =
     (if state c = Inactive then
        (case fault of
           None \<Rightarrow> (close_session c)\<lparr>state := Unconfigured\<rparr>
         | Some e \<Rightarrow> on_error c)
      else c)"
| "transition shutdown fault c =
     (if state c = Active \<or> state c = Inactive then
        (close_session (c\<lparr>loop_running := False\<rparr>))\<lparr>state := Finalized\<rparr>
      else c)"
| "transition internal_failure fault c = on_error c"

text \<open>
  Modelled from the spec: a sequence of transitions of the missing callback bodies, each
  with the failure of its action, first to last.
\<close>

fun run :: "(Trigger \<times> DeviceError option) list \<Rightarrow> Controller \<Rightarrow> Controller" where
  "run [] c = c"
| "run ((t, fault) # rest) c = run rest (transition t fault c)"

subsection \<open>The Dump service\<close>

text \<open>
  Modelled from the spec: the response of the Dump service, whose declaration is
  missing. It carries an explicit failure indicator and the device's configuration as an
  opaque payload.
\<close>

record DumpResponse =
  failed :: bool
  config :: string

text \<open>
  Modelled from the spec: how a call of the missing body of \<^verbatim>\<open>Dump\<close> can end: it returns
  a response, an error is raised to the caller, or the call waits for the session lock.
\<close>

datatype ServiceOutcome = Responded DumpResponse | Raised DeviceError | Blocked

text \<open>
  Modelled from the spec: the missing body of \<^verbatim>\<open>Dump\<close>. The service is callable only
  while a session exists and returns an explicit failure indicator when none does; with a session it acquires the session
  lock, queries the device and populates the response; a failed query gives a response
  with the failure indicator rather than raising. It does not change the controller.
  The first argument is the device's answer to the query.
\<close>

definition Dump :: "DeviceError + string \<Rightarrow> Controller \<Rightarrow> ServiceOutcome \<times> Controller" where
  "Dump answer c =
     (case session c of
        None \<Rightarrow> (Responded \<lparr>failed = True, config = ''''\<rparr>, c)
      | Some h \<Rightarrow>
          (if gil_held c then (Blocked, c)
           else (case answer of
                   Inl e \<Rightarrow> (Responded \<lparr>failed = True, config = ''''\<rparr>, c)
                 | Inr blob \<Rightarrow> (Responded \<lparr>failed = False, config = blob\<rparr>, c))))"

section \<open>Properties of the schema translator\<close>

subsection \<open>The table and the loop\<close>

lemma schema_mask_buffer_id_map_entries:
  "schema_mask_buffer_id_map =
     [(1, RADIAL_DISTANCE_IMAGE), (2, NORM_AMPLITUDE_IMAGE), (4, AMPLITUDE_IMAGE), (8, XYZ)]"
  by (simp add: schema_mask_buffer_id_map_def map_of_initializer_list_def
      schema_mask_buffer_id_init_def IMG_RDIS_def IMG_AMP_def IMG_RAMP_def IMG_CART_def)

lemma buffer_list_loop_filter:
  "buffer_list_loop msk entries acc =
     acc @ map snd (filter (\<lambda>(k, b). msk AND k = k) entries)"
  by (induction entries arbitrary: acc) auto

subsection \<open>Single-bit masks\<close>

lemma and_single_bit_eq_iff:
  "n < 16 \<Longrightarrow> (m AND push_bit n 1 = push_bit n 1) \<longleftrightarrow> bit (m :: uint16) n"
proof
  assume n: "n < 16" and e: "m AND push_bit n 1 = push_bit n 1"
  have "bit (push_bit n (1 :: uint16)) n" using n by (simp add: bit_simps)
  with e have "bit (m AND push_bit n 1) n" by simp
  then show "bit m n" by (simp add: bit_and_iff)
next
  assume n: "n < 16" and b: "bit m n"
  show "m AND push_bit n 1 = push_bit n 1"
  proof (rule bit_eqI)
    fix k
    show "bit (m AND push_bit n 1) k = bit (push_bit n (1 :: uint16)) k"
      using b by (auto simp: bit_simps)
  qed
qed

lemma and_1: "(m AND 1 = 1) \<longleftrightarrow> bit (m :: uint16) 0"
  using and_single_bit_eq_iff [of 0 m] by simp

lemma and_2: "(m AND 2 = 2) \<longleftrightarrow> bit (m :: uint16) 1"
  using and_single_bit_eq_iff [of 1 m] by simp

lemma and_4: "(m AND 4 = 4) \<longleftrightarrow> bit (m :: uint16) 2"
  using and_single_bit_eq_iff [of 2 m] by simp

lemma and_8: "(m AND 8 = 8) \<longleftrightarrow> bit (m :: uint16) 3"
  using and_single_bit_eq_iff [of 3 m] by simp

lemma single_bit_inj:
  "n < 16 \<Longrightarrow> k < 16 \<Longrightarrow> (push_bit n (1 :: uint16) = push_bit k 1) \<longleftrightarrow> n = k"
proof
  assume n: "n < 16" and k: "k < 16" and e: "push_bit n (1 :: uint16) = push_bit k 1"
  have "bit (push_bit n (1 :: uint16)) n" using n by (simp add: bit_simps)
  with e have "bit (push_bit k (1 :: uint16)) n" by simp
  then show "n = k" by (auto simp: bit_simps)
qed simp

lemma single_bit_1: "n < 16 \<Longrightarrow> push_bit n (1 :: uint16) = 1 \<longleftrightarrow> n = 0"
  using single_bit_inj [of n 0] by simp

lemma single_bit_2: "n < 16 \<Longrightarrow> push_bit n (1 :: uint16) = 2 \<longleftrightarrow> n = 1"
  using single_bit_inj [of n 1] by simp

lemma single_bit_4: "n < 16 \<Longrightarrow> push_bit n (1 :: uint16) = 4 \<longleftrightarrow> n = 2"
  using single_bit_inj [of n 2] by simp

lemma single_bit_8: "n < 16 \<Longrightarrow> push_bit n (1 :: uint16) = 8 \<longleftrightarrow> n = 3"
  using single_bit_inj [of n 3] by simp

lemma known_bits: "IMG_RDIS OR IMG_AMP OR IMG_RAMP OR IMG_CART = 15"
  by (simp add: IMG_RDIS_def IMG_AMP_def IMG_RAMP_def IMG_CART_def)

lemma bit_and_15: "n < 4 \<Longrightarrow> bit (m AND 15) n = bit (m :: uint16) n"
proof -
  assume "n < 4"
  then have "n = 0 \<or> n = 1 \<or> n = 2 \<or> n = 3" by arith
  moreover have "(15 :: uint16) = mask 4" by (simp add: mask_eq_exp_minus_1)
  ultimately show ?thesis by (auto simp: bit_and_iff bit_mask_iff)
qed

subsection \<open>The result, bit by bit\<close>

lemma buffer_list_by_bits:
  "buffer_list_from_schema_mask m =
     (if bit m 0 then [RADIAL_DISTANCE_IMAGE] else []) @
     (if bit m 1 then [NORM_AMPLITUDE_IMAGE] else []) @
     (if bit m 2 then [AMPLITUDE_IMAGE] else []) @
     (if bit m 3 then [XYZ] else [])"
  by (simp add: buffer_list_from_schema_mask_def schema_mask_buffer_id_map_entries
      buffer_list_loop_filter and_1 and_2 and_4 and_8)

lemma member_by_bits:
  "b \<in> set (buffer_list_from_schema_mask m) \<longleftrightarrow>
     (b = RADIAL_DISTANCE_IMAGE \<and> bit m 0) \<or> (b = NORM_AMPLITUDE_IMAGE \<and> bit m 1) \<or>
     (b = AMPLITUDE_IMAGE \<and> bit m 2) \<or> (b = XYZ \<and> bit m 3)"
  by (auto simp: buffer_list_by_bits)

lemma paired_bit_iff:
  "(\<exists>n<16. (push_bit n 1, b) \<in> set schema_mask_buffer_id_map \<and> bit (m :: uint16) n) \<longleftrightarrow>
     (b = RADIAL_DISTANCE_IMAGE \<and> bit m 0) \<or> (b = NORM_AMPLITUDE_IMAGE \<and> bit m 1) \<or>
     (b = AMPLITUDE_IMAGE \<and> bit m 2) \<or> (b = XYZ \<and> bit m 3)"
  (is "?L \<longleftrightarrow> ?R")
proof
  assume ?L
  then obtain n where n: "n < 16" and e: "(push_bit n 1, b) \<in> set schema_mask_buffer_id_map"
    and b: "bit m n" by blast
  from e n b show ?R
    by (auto simp: schema_mask_buffer_id_map_entries single_bit_1 single_bit_2
        single_bit_4 single_bit_8 simp del: push_bit_of_1)
next
  assume r: ?R
  have e0: "(push_bit 0 1, RADIAL_DISTANCE_IMAGE) \<in> set schema_mask_buffer_id_map"
    and e1: "(push_bit 1 1, NORM_AMPLITUDE_IMAGE) \<in> set schema_mask_buffer_id_map"
    and e2: "(push_bit 2 1, AMPLITUDE_IMAGE) \<in> set schema_mask_buffer_id_map"
    and e3: "(push_bit 3 1, XYZ) \<in> set schema_mask_buffer_id_map"
    by (simp_all add: schema_mask_buffer_id_map_entries)
  from r consider "b = RADIAL_DISTANCE_IMAGE" "bit m 0" | "b = NORM_AMPLITUDE_IMAGE" "bit m 1"
    | "b = AMPLITUDE_IMAGE" "bit m 2" | "b = XYZ" "bit m 3" by blast
  then show ?L
  proof cases
    case 1 with e0 show ?thesis by (intro exI [of _ 0]) simp
  next
    case 2 with e1 show ?thesis by (intro exI [of _ 1]) simp
  next
    case 3 with e2 show ?thesis by (intro exI [of _ 2]) simp
  next
    case 4 with e3 show ?thesis by (intro exI [of _ 3]) simp
  qed
qed

subsection \<open>Membership, order and unknown bits\<close>

text \<open>
  Claim C1. For every 16-bit mask, a buffer id is in the list that
  \<^verbatim>\<open>buffer_list_from_schema_mask\<close> returns if and only if the table pairs it with a single
  bit \<open>1 << n\<close> and bit \<open>n\<close> of the mask is set. Every id of the list is the id of a table
  entry, so an id with no entry never appears, whatever the other bits of the mask are.
\<close>

theorem buffer_list_member_iff_paired_bit_set:
  "(b \<in> set (buffer_list_from_schema_mask m) \<longleftrightarrow>
      (\<exists>n<16. (push_bit n 1, b) \<in> set schema_mask_buffer_id_map \<and> bit m n)) \<and>
   set (buffer_list_from_schema_mask m) \<subseteq> snd ` set schema_mask_buffer_id_map"
proof
  show "b \<in> set (buffer_list_from_schema_mask m) \<longleftrightarrow>
      (\<exists>n<16. (push_bit n 1, b) \<in> set schema_mask_buffer_id_map \<and> bit m n)"
    unfolding paired_bit_iff member_by_bits ..
  show "set (buffer_list_from_schema_mask m) \<subseteq> snd ` set schema_mask_buffer_id_map"
    by (auto simp: buffer_list_from_schema_mask_def buffer_list_loop_filter)
qed

text \<open>
  Claim C2. For every mask the result is the table sequence RADIAL_DISTANCE_IMAGE,
  NORM_AMPLITUDE_IMAGE, AMPLITUDE_IMAGE, XYZ, filtered to the entries whose bit is set,
  in the order of the table: the order in which the header lists the entries (the map
  visits them by ascending key, which is the same order), whichever bits are set.
\<close>

theorem buffer_list_is_filtered_table:
  "buffer_list_from_schema_mask m =
     map snd (filter (\<lambda>(k, b). m AND k = k) schema_mask_buffer_id_init) \<and>
   buffer_list_from_schema_mask m =
     map snd (filter (\<lambda>(n, b). bit m n)
       [(0, RADIAL_DISTANCE_IMAGE), (1, NORM_AMPLITUDE_IMAGE), (2, AMPLITUDE_IMAGE), (3, XYZ)])"
proof
  have "schema_mask_buffer_id_map = schema_mask_buffer_id_init"
    by (simp add: schema_mask_buffer_id_map_entries schema_mask_buffer_id_init_def
        IMG_RDIS_def IMG_AMP_def IMG_RAMP_def IMG_CART_def)
  then show "buffer_list_from_schema_mask m =
     map snd (filter (\<lambda>(k, b). m AND k = k) schema_mask_buffer_id_init)"
    by (simp add: buffer_list_from_schema_mask_def buffer_list_loop_filter)
  show "buffer_list_from_schema_mask m =
     map snd (filter (\<lambda>(n, b). bit m n)
       [(0, RADIAL_DISTANCE_IMAGE), (1, NORM_AMPLITUDE_IMAGE), (2, AMPLITUDE_IMAGE), (3, XYZ)])"
    by (simp add: buffer_list_by_bits)
qed

text \<open>
  Claim C3. Clearing every bit that has no table entry leaves the result unchanged: the
  result for a mask is the result for the mask restricted to
  \<open>IMG_RDIS | IMG_AMP | IMG_RAMP | IMG_CART\<close>. The function is total and has no error
  result, so an unrecognised bit is ignored and raises nothing.
\<close>

theorem buffer_list_ignores_unknown_bits:
  "buffer_list_from_schema_mask m =
     buffer_list_from_schema_mask (m AND (IMG_RDIS OR IMG_AMP OR IMG_RAMP OR IMG_CART))"
  by (simp add: known_bits buffer_list_by_bits bit_and_15)

text \<open>Claim C4. The mask 0 gives the empty list.\<close>

theorem buffer_list_of_zero_mask: "buffer_list_from_schema_mask 0 = []"
  by (simp add: buffer_list_by_bits)

text \<open>
  Claim C5. The mask \<open>0b1001\<close>, which is 9 and has the bits of \<open>IMG_CART\<close> and \<open>IMG_RDIS\<close>,
  gives exactly the two-element list RADIAL_DISTANCE_IMAGE, XYZ, in that order.
\<close>

theorem buffer_list_of_mask_0b1001:
  "buffer_list_from_schema_mask 9 = [RADIAL_DISTANCE_IMAGE, XYZ] \<and> 9 = IMG_CART OR IMG_RDIS"
  by (simp add: buffer_list_from_schema_mask_def schema_mask_buffer_id_map_entries
      IMG_CART_def IMG_RDIS_def)

text \<open>
  Claim C10. The amplitude bits are crossed relative to the names of the buffer ids:
  the mask \<open>1 << 1\<close>, which is \<open>IMG_AMP\<close>, gives exactly NORM_AMPLITUDE_IMAGE, and the mask
  \<open>1 << 2\<close>, which is \<open>IMG_RAMP\<close>, gives exactly AMPLITUDE_IMAGE.
\<close>

theorem buffer_list_of_amplitude_bits:
  "buffer_list_from_schema_mask (push_bit 1 1) = [NORM_AMPLITUDE_IMAGE] \<and>
   buffer_list_from_schema_mask (push_bit 2 1) = [AMPLITUDE_IMAGE] \<and>
   IMG_AMP = push_bit 1 1 \<and> IMG_RAMP = push_bit 2 1"
  by (simp add: buffer_list_from_schema_mask_def schema_mask_buffer_id_map_entries
      IMG_AMP_def IMG_RAMP_def)

subsection \<open>Monotonicity\<close>

lemma subseq_filter_mono:
  "(\<And>x. x \<in> set xs \<Longrightarrow> P x \<Longrightarrow> Q x) \<Longrightarrow> subseq (filter P xs) (filter Q xs)"
proof (induction xs)
  case Nil
  show ?case by simp
next
  case (Cons x xs)
  then have ih: "subseq (filter P xs) (filter Q xs)" by simp
  show ?case
  proof (cases "P x")
    case True
    with Cons.prems have "Q x" by simp
    with True ih show ?thesis by simp
  next
    case False
    with ih show ?thesis by (cases "Q x") auto
  qed
qed

lemma and_key_mono:
  fixes m1 m2 k :: uint16
  assumes le: "\<forall>n. bit m1 n \<longrightarrow> bit m2 n" and k: "m1 AND k = k"
  shows "m2 AND k = k"
proof (rule bit_eqI)
  fix n
  have "bit (m1 AND k) n = bit k n" by (simp only: k)
  then have "bit k n \<Longrightarrow> bit m1 n" by (simp add: bit_and_iff)
  with le show "bit (m2 AND k) n = bit k n" by (auto simp: bit_and_iff)
qed

lemma buffer_list_loop_mono:
  assumes "\<forall>n. bit m1 n \<longrightarrow> bit m2 n"
  shows "subseq (buffer_list_loop m1 entries []) (buffer_list_loop m2 entries [])"
proof -
  have "subseq (filter (\<lambda>(k, b). m1 AND k = k) entries) (filter (\<lambda>(k, b). m2 AND k = k) entries)"
    by (rule subseq_filter_mono) (use assms and_key_mono in auto)
  then show ?thesis by (simp add: buffer_list_loop_filter subseq_map)
qed

lemma bit_or_single:
  "j < 16 \<Longrightarrow> n < 16 \<Longrightarrow> bit ((m :: uint16) OR push_bit j 1) n \<longleftrightarrow> bit m n \<or> n = j"
  by (auto simp: bit_simps)

lemma buffer_list_set_known_bit:
  assumes "(k, b) \<in> set schema_mask_buffer_id_map"
  shows "b \<in> set (buffer_list_from_schema_mask (m OR k)) \<and>
         filter (\<lambda>x. x \<noteq> b) (buffer_list_from_schema_mask (m OR k)) =
         filter (\<lambda>x. x \<noteq> b) (buffer_list_from_schema_mask m)"
proof -
  have b1: "\<And>n. n < 16 \<Longrightarrow> bit (m OR 1) n = (bit m n \<or> n = 0)"
    using bit_or_single [of 0 _ m] by simp
  have b2: "\<And>n. n < 16 \<Longrightarrow> bit (m OR 2) n = (bit m n \<or> n = 1)"
    using bit_or_single [of 1 _ m] by simp
  have b4: "\<And>n. n < 16 \<Longrightarrow> bit (m OR 4) n = (bit m n \<or> n = 2)"
    using bit_or_single [of 2 _ m] by simp
  have b8: "\<And>n. n < 16 \<Longrightarrow> bit (m OR 8) n = (bit m n \<or> n = 3)"
    using bit_or_single [of 3 _ m] by simp
  from assms consider "k = 1" "b = RADIAL_DISTANCE_IMAGE" | "k = 2" "b = NORM_AMPLITUDE_IMAGE"
    | "k = 4" "b = AMPLITUDE_IMAGE" | "k = 8" "b = XYZ"
    by (auto simp: schema_mask_buffer_id_map_entries)
  then show ?thesis
  proof cases
    case 1 then show ?thesis by (simp add: buffer_list_by_bits b1)
  next
    case 2 then show ?thesis by (simp add: buffer_list_by_bits b2)
  next
    case 3 then show ?thesis by (simp add: buffer_list_by_bits b4)
  next
    case 4 then show ?thesis by (simp add: buffer_list_by_bits b8)
  qed
qed

text \<open>
  Claim C9. \<^verbatim>\<open>buffer_list_from_schema_mask\<close> is monotone: when every bit set in \<open>m1\<close> is
  also set in \<open>m2\<close>, the result for \<open>m1\<close> is a subsequence of the result for \<open>m2\<close>. In
  particular, setting the bit \<open>k\<close> of a table entry \<open>(k, b)\<close> puts \<open>b\<close> into the result and
  leaves the other ids as they were, in their order.
\<close>

theorem buffer_list_monotone:
  "((\<forall>n. bit m1 n \<longrightarrow> bit m2 n) \<longrightarrow>
      subseq (buffer_list_from_schema_mask m1) (buffer_list_from_schema_mask m2)) \<and>
   ((k, b) \<in> set schema_mask_buffer_id_map \<longrightarrow>
      b \<in> set (buffer_list_from_schema_mask (m OR k)) \<and>
      filter (\<lambda>x. x \<noteq> b) (buffer_list_from_schema_mask (m OR k)) =
      filter (\<lambda>x. x \<noteq> b) (buffer_list_from_schema_mask m))"
  using buffer_list_loop_mono [of m1 m2 schema_mask_buffer_id_map]
    buffer_list_set_known_bit [of k b m]
  by (simp add: buffer_list_from_schema_mask_def)

text \<open>
  The masks 8 and 9: every bit of 8 is a bit of 9, and the result for 8 is a subsequence
  of the result for 9; setting the \<open>IMG_AMP\<close> bit in 9 inserts NORM_AMPLITUDE_IMAGE only.
\<close>

theorem buffer_list_monotone_witness:
  "subseq (buffer_list_from_schema_mask 8) (buffer_list_from_schema_mask 9) \<and>
   buffer_list_from_schema_mask 8 = [XYZ] \<and>
   buffer_list_from_schema_mask 9 = [RADIAL_DISTANCE_IMAGE, XYZ] \<and>
   NORM_AMPLITUDE_IMAGE \<in> set (buffer_list_from_schema_mask (9 OR 2)) \<and>
   filter (\<lambda>x. x \<noteq> NORM_AMPLITUDE_IMAGE) (buffer_list_from_schema_mask (9 OR 2)) =
   filter (\<lambda>x. x \<noteq> NORM_AMPLITUDE_IMAGE) (buffer_list_from_schema_mask 9)"
proof -
  have le: "\<forall>n. bit (8 :: uint16) n \<longrightarrow> bit (9 :: uint16) n"
  proof (intro allI impI)
    fix n assume "bit (8 :: uint16) n"
    then have "bit (push_bit 3 1 :: uint16) n" by simp
    then have "n = 3" by (auto simp: bit_simps simp del: push_bit_of_1)
    then show "bit (9 :: uint16) n" by simp
  qed
  have e: "(2, NORM_AMPLITUDE_IMAGE) \<in> set schema_mask_buffer_id_map"
    by (simp add: schema_mask_buffer_id_map_entries)
  have v: "buffer_list_from_schema_mask 8 = [XYZ]"
    "buffer_list_from_schema_mask 9 = [RADIAL_DISTANCE_IMAGE, XYZ]"
    by (simp_all add: buffer_list_from_schema_mask_def schema_mask_buffer_id_map_entries)
  from buffer_list_monotone [of 8 9 2 NORM_AMPLITUDE_IMAGE 9] le e v show ?thesis by simp
qed

subsection \<open>Determinism and absence of side effects\<close>

lemma call_on_init:
  "buffer_list_from_schema_mask_call m ifm3d_legacy_init =
     (buffer_list_from_schema_mask m, ifm3d_legacy_init)"
  by (simp add: buffer_list_from_schema_mask_call_def ifm3d_legacy_init_def
      buffer_list_from_schema_mask_def)

lemma calls_state: "snd (calls ms g) = g"
  by (induction ms arbitrary: g)
    (simp_all add: buffer_list_from_schema_mask_call_def split_beta)

lemma calls_on_init:
  "calls ms ifm3d_legacy_init = (map buffer_list_from_schema_mask ms, ifm3d_legacy_init)"
  by (induction ms) (simp_all add: call_on_init)

text \<open>
  Claim C6. \<^verbatim>\<open>buffer_list_from_schema_mask\<close> is deterministic and free of side effects. A
  call leaves the namespace's state as it found it, so a second evaluation on the same
  mask returns the same list as the first; and in any sequence of calls from the initial
  state, each call returns the list that its mask alone determines, and the state at the
  end is the initial one.
\<close>

theorem buffer_list_deterministic:
  "snd (buffer_list_from_schema_mask_call m g) = g \<and>
   fst (buffer_list_from_schema_mask_call m (snd (buffer_list_from_schema_mask_call m g))) =
     fst (buffer_list_from_schema_mask_call m g) \<and>
   snd (calls ms g) = g \<and>
   calls ms ifm3d_legacy_init = (map buffer_list_from_schema_mask ms, ifm3d_legacy_init)"
  by (simp add: calls_on_init calls_state) (simp add: buffer_list_from_schema_mask_call_def)

section \<open>Properties of the lifecycle controller\<close>

text \<open>
  Claim C7. From the Unconfigured state with no open session, the sequence configure,
  activate, deactivate, cleanup, each transition succeeding, returns the controller to
  Unconfigured with zero open sessions, which is the count at the start. Whatever actions
  of the four transitions fail, the count of open sessions at the end is still the count
  at the start.
\<close>

theorem configure_activate_deactivate_cleanup_roundtrip:
  assumes "state c = Unconfigured" and "session c = None"
  shows "state (run [(configure, None), (activate, None), (deactivate, None), (cleanup, None)] c)
           = Unconfigured \<and>
         open_sessions (run [(configure, None), (activate, None), (deactivate, None),
           (cleanup, None)] c) = 0 \<and>
         open_sessions (run [(configure, None), (activate, None), (deactivate, None),
           (cleanup, None)] c) = open_sessions c \<and>
         open_sessions (run [(configure, f1), (activate, f2), (deactivate, f3),
           (cleanup, f4)] c) = open_sessions c"
proof -
  have nominal: "run [(configure, None), (activate, None), (deactivate, None), (cleanup, None)] c
      = c\<lparr>loop_running := False\<rparr>"
    using assms by (simp add: close_session_def)
  have s0: "open_sessions c = 0" using assms by (simp add: open_sessions_def)
  have "session (run [(configure, f1), (activate, f2), (deactivate, f3), (cleanup, f4)] c) = None"
    using assms
    by (cases f1; cases f2; cases f3; cases f4) (simp_all add: close_session_def on_error_def)
  then have "open_sessions (run [(configure, f1), (activate, f2), (deactivate, f3),
           (cleanup, f4)] c) = 0" by (simp add: open_sessions_def)
  with nominal s0 assms show ?thesis by (simp add: open_sessions_def)
qed

text \<open>
  A controller that starts Unconfigured with the mask 9: the session is open after
  configure and while Active, and closed again at the end.
\<close>

theorem configure_activate_deactivate_cleanup_roundtrip_witness:
  "state (run [(configure, None), (activate, None), (deactivate, None), (cleanup, None)]
     \<lparr>state = Unconfigured, schema_mask = 9, session = None, loop_running = False,
      gil_held = False\<rparr>) = Unconfigured \<and>
   open_sessions (run [(configure, None), (activate, None), (deactivate, None), (cleanup, None)]
     \<lparr>state = Unconfigured, schema_mask = 9, session = None, loop_running = False,
      gil_held = False\<rparr>) = 0 \<and>
   open_sessions (run [(configure, None), (activate, Some ConfigRejected), (deactivate, None),
       (cleanup, None)]
     \<lparr>state = Unconfigured, schema_mask = 9, session = None, loop_running = False,
      gil_held = False\<rparr>) = 0 \<and>
   run [(configure, None), (activate, None)]
     \<lparr>state = Unconfigured, schema_mask = 9, session = None, loop_running = False,
      gil_held = False\<rparr> =
     \<lparr>state = Active, schema_mask = 9,
      session = Some \<lparr>frame_source = [RADIAL_DISTANCE_IMAGE, XYZ]\<rparr>, loop_running = True,
      gil_held = False\<rparr>"
proof -
  have run2: "run [(configure, None), (activate, None)]
     \<lparr>state = Unconfigured, schema_mask = 9, session = None, loop_running = False,
      gil_held = False\<rparr> =
     \<lparr>state = Active, schema_mask = 9,
      session = Some \<lparr>frame_source = [RADIAL_DISTANCE_IMAGE, XYZ]\<rparr>, loop_running = True,
      gil_held = False\<rparr>"
    by (simp add: buffer_list_from_schema_mask_def schema_mask_buffer_id_map_entries)
  have s0: "open_sessions \<lparr>state = Unconfigured, schema_mask = 9, session = None,
      loop_running = False, gil_held = False\<rparr> = 0"
    by (simp add: open_sessions_def)
  from configure_activate_deactivate_cleanup_roundtrip
    [of "\<lparr>state = Unconfigured, schema_mask = 9, session = None, loop_running = False,
      gil_held = False\<rparr>" None "Some ConfigRejected" None None] run2 s0
  show ?thesis by (simp add: close_session_def on_error_def open_sessions_def)
qed

text \<open>
  Claim C8. A call of the Dump service when no session is open returns a response whose
  failure indicator is set; the call neither waits for the session lock nor raises, also
  when another thread holds the lock; and the controller is left as it was.
\<close>

theorem dump_without_session:
  assumes "session c = None"
  shows "(\<exists>r. fst (Dump answer c) = Responded r \<and> failed r) \<and>
         fst (Dump answer c) \<noteq> Blocked \<and>
         (\<forall>e. fst (Dump answer c) \<noteq> Raised e) \<and>
         snd (Dump answer c) = c"
  using assms by (simp add: Dump_def)

text \<open>
  An Unconfigured controller with no session, the lock held by another thread and a
  device that would answer.
\<close>

theorem dump_without_session_witness:
  "Dump (Inr ''cfg'')
     \<lparr>state = Unconfigured, schema_mask = 9, session = None, loop_running = False,
      gil_held = True\<rparr> =
   (Responded \<lparr>failed = True, config = ''''\<rparr>,
     \<lparr>state = Unconfigured, schema_mask = 9, session = None, loop_running = False,
      gil_held = True\<rparr>)"
proof -
  have "session \<lparr>state = Unconfigured, schema_mask = 9, session = None,
      loop_running = False, gil_held = True\<rparr> = None"
    by simp
  from dump_without_session [OF this, of "Inr ''cfg''"] show ?thesis
    by (simp add: Dump_def)
qed

end
